theory Spec2Isabelle
  imports Main "HOL-Library.Signed_Division"
begin

section \<open>The Pomodoro timer of timer.js\<close>

text \<open>
  The class \<open>PomodoroTimer\<close> is embedded as a record of its fields together with
  the part of the host it talks to: the table of live \<open>setInterval\<close> handles and the
  sequence of callback invocations it has made. Every method is a function from the state
  before the call to the state after it.

  Mode names are the three keys of \<open>this.durations\<close>; the callers in app.js pass the
  literals \<open>'focus'\<close>, \<open>'short'\<close>, \<open>'long'\<close> and the \<open>data-mode\<close> of a mode tab.
  Seconds, minutes and the session counter are JavaScript numbers holding integers, modelled
  as \<open>int\<close>. The timer's own arithmetic (adding and subtracting 1, the clamped minutes times
  60, comparisons) stays below 100 minutes and one count per expiry, where doubles are exact.
  JavaScript's \<open>%\<close> takes the sign of the dividend and is exact on doubles; on integers
  it is \<open>smod\<close>. The formatting helper accepts any number, so its division and its
  \<open>String\<close> follow IEEE 754 binary64 and \<open>Number::toString\<close>.

  A callback is an observer outside the timer: the model records whether one was supplied to
  the constructor and, in \<open>calls\<close>, every invocation the timer makes. The callbacks that
  app.js supplies only read the timer.
\<close>

datatype mode = Focus | Short | Long

text \<open>One invocation of a callback, with its arguments.\<close>

datatype call =
    TickCall int mode          \<comment> \<open>\<open>onTick(secondsLeft, mode)\<close>\<close>
  | EndCall mode int           \<comment> \<open>\<open>onEnd(mode, totalFocusSessions)\<close>\<close>
  | ModeChangeCall mode        \<comment> \<open>\<open>onModeChange(mode)\<close>\<close>

record timer =
  durations :: "mode \<Rightarrow> int"
  mode :: mode
  timeLeft :: int
  isRunning :: bool
  focusSessions :: int
  interval :: "nat option"     \<comment> \<open>\<open>this._interval\<close>: a handle, or \<open>null\<close>\<close>
  onTick :: bool               \<comment> \<open>whether \<open>opts.onTick\<close> was supplied\<close>
  onEnd :: bool
  onModeChange :: bool
  intervals :: "nat list"      \<comment> \<open>host: handles of the live intervals, oldest first\<close>
  nextHandle :: nat            \<comment> \<open>host: the handle the next \<open>setInterval\<close> returns\<close>
  calls :: "call list"         \<comment> \<open>callback invocations so far, oldest first\<close>

subsection \<open>The host's interval table\<close>

text \<open>
  \<open>setInterval\<close> registers a new repeating callback under a fresh handle and returns the
  handle; \<open>clearInterval\<close> removes the handle it is given and ignores \<open>null\<close>.
\<close>

definition setInterval :: "timer \<Rightarrow> nat \<times> timer" where
  "setInterval t =
     (nextHandle t,
      t\<lparr>intervals := intervals t @ [nextHandle t], nextHandle := Suc (nextHandle t)\<rparr>)"

definition clearInterval :: "nat option \<Rightarrow> timer \<Rightarrow> timer" where
  "clearInterval h t =
     (case h of None \<Rightarrow> t
      | Some i \<Rightarrow> t\<lparr>intervals := filter (\<lambda>j. j \<noteq> i) (intervals t)\<rparr>)"

definition emit :: "bool \<Rightarrow> call \<Rightarrow> timer \<Rightarrow> timer" where
  \<comment> \<open>\<open>if (this.cb) this.cb(...)\<close>\<close>
  "emit present c t = (if present then t\<lparr>calls := calls t @ [c]\<rparr> else t)"

subsection \<open>Construction and control\<close>

definition defaultDurations :: "mode \<Rightarrow> int" where
  "defaultDurations m = (case m of Focus \<Rightarrow> 25 * 60 | Short \<Rightarrow> 5 * 60 | Long \<Rightarrow> 15 * 60)"

definition PomodoroTimer :: "bool \<Rightarrow> bool \<Rightarrow> bool \<Rightarrow> timer" where
  \<comment> \<open>the constructor; the arguments say which of the three callbacks \<open>opts\<close> holds\<close>
  "PomodoroTimer tickCb endCb modeCb =
     \<lparr>durations = defaultDurations,
      mode = Focus,
      timeLeft = defaultDurations Focus,
      isRunning = False,
      focusSessions = 0,
      interval = None,
      onTick = tickCb,
      onEnd = endCb,
      onModeChange = modeCb,
      intervals = [],
      nextHandle = 0,
      calls = []\<rparr>"

definition start :: "timer \<Rightarrow> timer" where
  "start t =
     (if isRunning t then t
      else (let t1 = t\<lparr>isRunning := True\<rparr>;
                (h, t2) = setInterval t1
            in t2\<lparr>interval := Some h\<rparr>))"

definition pause :: "timer \<Rightarrow> timer" where
  "pause t =
     (let t1 = t\<lparr>isRunning := False\<rparr>;
          t2 = clearInterval (interval t1) t1
      in t2\<lparr>interval := None\<rparr>)"

definition toggle :: "timer \<Rightarrow> bool \<times> timer" where
  "toggle t =
     (let t1 = (if isRunning t then pause t else start t)
      in (isRunning t1, t1))"

definition reset :: "timer \<Rightarrow> timer" where
  "reset t =
     (let t1 = pause t;
          t2 = t1\<lparr>timeLeft := durations t1 (mode t1)\<rparr>
      in emit (onTick t2) (TickCall (timeLeft t2) (mode t2)) t2)"

definition setMode :: "mode \<Rightarrow> timer \<Rightarrow> timer" where
  "setMode m t =
     (let t1 = t\<lparr>mode := m\<rparr>;
          t2 = t1\<lparr>timeLeft := durations t1 m\<rparr>;
          t3 = pause t2;
          t4 = emit (onModeChange t3) (ModeChangeCall m) t3
      in emit (onTick t4) (TickCall (timeLeft t4) m) t4)"

definition setDuration :: "mode \<Rightarrow> int \<Rightarrow> timer \<Rightarrow> timer" where
  "setDuration m minutes t =
     (let secs = max 1 (min 99 minutes) * 60;
          t1 = t\<lparr>durations := (durations t)(m := secs)\<rparr>
      in if mode t1 = m then reset t1 else t1)"

subsection \<open>The private methods\<close>

definition handleEnd :: "timer \<Rightarrow> timer" where
  "handleEnd t =
     (let endedMode = mode t;
          t1 = (if endedMode = Focus then t\<lparr>focusSessions := focusSessions t + 1\<rparr> else t);
          t2 = emit (onEnd t1) (EndCall endedMode (focusSessions t1)) t1
      in if endedMode = Focus
         then setMode (if focusSessions t2 smod 4 = 0 then Long else Short) t2
         else setMode Focus t2)"

definition tick :: "timer \<Rightarrow> timer" where
  "tick t =
     (let t1 = t\<lparr>timeLeft := timeLeft t - 1\<rparr>;
          t2 = emit (onTick t1) (TickCall (timeLeft t1) (mode t1)) t1
      in if timeLeft t2 \<le> 0 then handleEnd t2 else t2)"

subsection \<open>The host's clock\<close>

text \<open>
  An interval that is still live when its turn comes runs its callback, which is
  \<open>() => this._tick()\<close> for every interval the timer creates. When one second passes,
  every interval that was live at the start of the second gets its turn, oldest first.
\<close>

definition fire :: "nat \<Rightarrow> timer \<Rightarrow> timer" where
  "fire h t = (if h \<in> set (intervals t) then tick t else t)"

definition second :: "timer \<Rightarrow> timer" where
  "second t = foldl (\<lambda>s h. fire h s) t (intervals t)"

fun seconds :: "nat \<Rightarrow> timer \<Rightarrow> timer" where
  "seconds 0 t = t"
| "seconds (Suc n) t = seconds n (second t)"

subsection \<open>Histories\<close>

datatype op =
    Start | Pause | Toggle | Reset
  | SetMode mode | SetDuration mode int
  | Tick                       \<comment> \<open>one second passes\<close>

fun step :: "op \<Rightarrow> timer \<Rightarrow> timer" where
  "step Start t = start t"
| "step Pause t = pause t"
| "step Toggle t = snd (toggle t)"
| "step Reset t = reset t"
| "step (SetMode m) t = setMode m t"
| "step (SetDuration m k) t = setDuration m k t"
| "step Tick t = second t"

fun run :: "timer \<Rightarrow> op list \<Rightarrow> timer" where
  "run t [] = t"
| "run t (x # xs) = run (step x t) xs"

subsection \<open>Doubles\<close>

text \<open>
  A finite double is \<open>m / 2 ^ p\<close> for integers \<open>m\<close> and \<open>p\<close> with
  \<open>\<bar>m\<bar> \<le> 2 ^ 53\<close>, written as the pair \<open>(m, p)\<close>; a negative \<open>p\<close> multiplies.
  \<open>bits n\<close> is the length of \<open>n\<close> in binary, and \<open>exponent a b\<close> is the integer part
  of the binary logarithm of \<open>a / b\<close> for positive \<open>a\<close> and \<open>b\<close>.
\<close>

fun bits :: "nat \<Rightarrow> nat" where
  "bits n = (if n = 0 then 0 else Suc (bits (n div 2)))"

definition exponent :: "int \<Rightarrow> int \<Rightarrow> int" where
  "exponent a b =
     (if b \<le> a then int (bits (nat (a div b))) - 1
      else - int (bits (nat ((b - 1) div a))))"

text \<open>
  \<open>nearest a b\<close> is the double that the division \<open>a / b\<close> returns, for an integer
  \<open>a\<close> and a positive integer \<open>b\<close>: the quotient rounded to 53 significant bits, ties to
  the even mantissa. The quotients that arise here are 0 or at least 1/60 in magnitude and at
  most the largest double, so neither subnormal numbers nor overflow occur.
\<close>

definition nearest :: "int \<Rightarrow> int \<Rightarrow> int \<times> int" where
  "nearest a b =
     (if a = 0 then (0, 0)
      else (let p = 52 - exponent \<bar>a\<bar> b;
                num = (if 0 \<le> p then \<bar>a\<bar> * 2 ^ nat p else \<bar>a\<bar>);
                den = (if 0 \<le> p then b else b * 2 ^ nat (- p));
                q = num div den;
                r = num mod den;
                m = (if den < 2 * r \<or> (2 * r = den \<and> odd q) then q + 1 else q)
            in (sgn a * m, p)))"

definition Math_floor :: "int \<times> int \<Rightarrow> int" where
  "Math_floor x = (case x of (m, p) \<Rightarrow> if 0 \<le> p then m div 2 ^ nat p else m * 2 ^ nat (- p))"

definition Number :: "nat \<Rightarrow> nat" where
  \<comment> \<open>the double nearest to a natural number; it is again a natural number\<close>
  "Number v = nat (Math_floor (nearest (int v) 1))"

subsection \<open>Rendering a number\<close>

definition digit :: "nat \<Rightarrow> char" where
  \<comment> \<open>the character of a decimal digit \<open>d < 10\<close>\<close>
  "digit d = ''0123456789'' ! d"

fun decimal :: "nat \<Rightarrow> string" where
  "decimal n = (if n < 10 then [digit n] else decimal (n div 10) @ [digit (n mod 10)])"

text \<open>
  \<open>Number::toString\<close> of a double \<open>x\<close> takes the least number \<open>k\<close> of digits for which
  some \<open>k\<close>-digit \<open>s\<close> and some \<open>n\<close> give a decimal \<open>s * 10 ^ (n - k)\<close> whose nearest
  double is \<open>x\<close>; among several such \<open>s\<close> the closest to \<open>x\<close>, then the even one. For a
  natural number \<open>x\<close> of \<open>n\<close> digits the only candidates with \<open>k\<close> digits are the two
  multiples of \<open>10 ^ (n - k)\<close> around \<open>x\<close>; the upper one may be \<open>10 ^ n\<close>, which
  is the digit 1 with \<open>n + 1\<close>. \<open>shortest x n k\<close> returns \<open>s\<close> and \<open>n\<close>, trying
  \<open>k\<close>, \<open>k + 1\<close>, ... up to \<open>n\<close> digits, where \<open>x\<close> itself qualifies.
\<close>

definition closer :: "nat \<Rightarrow> nat \<Rightarrow> nat \<Rightarrow> nat \<Rightarrow> nat" where
  "closer x u lo hi =
     (if Number (hi * u) \<noteq> x then lo
      else if Number (lo * u) \<noteq> x then hi
      else if x - lo * u < hi * u - x then lo
      else if hi * u - x < x - lo * u then hi
      else if even lo then lo else hi)"

function shortest :: "nat \<Rightarrow> nat \<Rightarrow> nat \<Rightarrow> nat \<times> nat" where
  "shortest x n k =
     (if n \<le> k then (x, n)
      else (let u = 10 ^ (n - k); lo = x div u; hi = lo + 1
            in if Number (lo * u) = x \<or> Number (hi * u) = x
               then (let s = closer x u lo hi in if s = 10 ^ k then (1, n + 1) else (s, n))
               else shortest x n (k + 1)))"
  by pat_completeness auto
termination
  by (relation "measure (\<lambda>(x, n, k). n - k)") auto

text \<open>
  Every natural number below \<open>2 ^ 53\<close> is a double, so its shortest digits are its own
  without the trailing zeros, and it is printed in full. From \<open>2 ^ 53\<close> on the shortest
  digits are followed by zeros up to 21 digits, and by an exponent beyond.
\<close>

definition Number_toString :: "nat \<Rightarrow> string" where
  "Number_toString x =
     (if x < 2 ^ 53 then decimal x
      else (let (s, n) = shortest x (length (decimal x)) 1;
                ds = decimal s
            in if n \<le> 21 then ds @ replicate (n - length ds) CHR ''0''
               else hd ds # (if length ds = 1 then [] else CHR ''.'' # tl ds)
                    @ ''e+'' @ decimal (n - 1)))"

definition String :: "int \<Rightarrow> string" where
  \<comment> \<open>\<open>String(k)\<close> for a double \<open>k\<close> that is an integer\<close>
  "String k = (if k < 0 then CHR ''-'' # Number_toString (nat (- k)) else Number_toString (nat k))"

definition padStart :: "nat \<Rightarrow> char \<Rightarrow> string \<Rightarrow> string" where
  "padStart w c s = replicate (w - length s) c @ s"

subsection \<open>The formatting helper\<close>

text \<open>The argument is a double that is an integer.\<close>

definition format :: "int \<Rightarrow> string" where
  "format secs =
     (let m = padStart 2 CHR ''0'' (String (Math_floor (nearest secs 60)));
          s = padStart 2 CHR ''0'' (String (secs smod 60))
      in m @ '':'' @ s)"

text \<open>
  The specification's description of the result, in its own words: \<open>floor(s / 60)\<close> and
  \<open>s mod 60\<close>, each in decimal and zero-padded on the left to at least two digits, joined by
  a colon.
\<close>

definition zeroPadded2 :: "nat \<Rightarrow> string" where
  "zeroPadded2 n = (if n < 10 then CHR ''0'' # decimal n else decimal n)"

definition formatSpec :: "int \<Rightarrow> string" where
  "formatSpec s = zeroPadded2 (nat (s div 60)) @ '':'' @ zeroPadded2 (nat (s mod 60))"

subsection \<open>Auxiliary notions\<close>

text \<open>The mode that \<open>_handleEnd\<close> advances to, read off the state in which it is entered.\<close>

definition nextMode :: "timer \<Rightarrow> mode" where
  "nextMode t =
     (if mode t = Focus then (if (focusSessions t + 1) smod 4 = 0 then Long else Short)
      else Focus)"

text \<open>
  What holds between any two method calls: the timer owns at most one live interval, the one
  named by \<open>_interval\<close>, and owns it exactly while \<open>isRunning\<close>; the countdown is within
  the current mode's duration and has not run out; every duration is at least a minute.
\<close>

definition consistent :: "timer \<Rightarrow> bool" where
  "consistent t \<longleftrightarrow>
     intervals t = (case interval t of None \<Rightarrow> [] | Some h \<Rightarrow> [h]) \<and>
     (isRunning t \<longleftrightarrow> interval t \<noteq> None) \<and>
     1 \<le> timeLeft t \<and> timeLeft t \<le> durations t (mode t) \<and>
     (\<forall>m. 60 \<le> durations t m) \<and>
     0 \<le> focusSessions t"

text \<open>Histories used as examples: a mode set to one minute and run down to its last second,
  and whole sessions at the default durations.\<close>

definition lastSecond :: "mode \<Rightarrow> op list" where
  "lastSecond m = SetMode m # SetDuration m 1 # Start # replicate 59 Tick"

definition focusSession :: "op list" where
  "focusSession = Start # replicate 1500 Tick"

definition shortBreak :: "op list" where
  "shortBreak = Start # replicate 300 Tick"

definition longBreak :: "op list" where
  "longBreak = Start # replicate 900 Tick"

text \<open>A timer at the beginning of a session in mode \<open>m\<close>, with the default durations
  and \<open>k\<close> completed focus sessions.\<close>

definition fresh :: "timer \<Rightarrow> mode \<Rightarrow> int \<Rightarrow> bool" where
  "fresh t m k \<longleftrightarrow>
     consistent t \<and> mode t = m \<and> timeLeft t = defaultDurations m \<and>
     focusSessions t = k \<and> durations t = defaultDurations"

text \<open>Reading a string of decimal digits back as a number.\<close>

definition isDigit :: "char \<Rightarrow> bool" where
  "isDigit c \<longleftrightarrow> c \<in> set ''0123456789''"

definition digitValue :: "char \<Rightarrow> nat" where
  "digitValue c = of_char c - 48"

definition numberOf :: "string \<Rightarrow> nat" where
  "numberOf s = foldl (\<lambda>a c. 10 * a + digitValue c) 0 s"

section \<open>Field-wise effect of every method\<close>

declare decimal.simps [simp del]
declare bits.simps [simp del]
declare shortest.simps [simp del]

lemma emit_fields [simp]:
  "durations (emit p c t) = durations t"
  "mode (emit p c t) = mode t"
  "timeLeft (emit p c t) = timeLeft t"
  "isRunning (emit p c t) = isRunning t"
  "focusSessions (emit p c t) = focusSessions t"
  "interval (emit p c t) = interval t"
  "onTick (emit p c t) = onTick t"
  "onEnd (emit p c t) = onEnd t"
  "onModeChange (emit p c t) = onModeChange t"
  "intervals (emit p c t) = intervals t"
  "nextHandle (emit p c t) = nextHandle t"
  "calls (emit p c t) = (if p then calls t @ [c] else calls t)"
  by (simp_all add: emit_def)

lemma pause_fields [simp]:
  "durations (pause t) = durations t"
  "mode (pause t) = mode t"
  "timeLeft (pause t) = timeLeft t"
  "isRunning (pause t) = False"
  "focusSessions (pause t) = focusSessions t"
  "interval (pause t) = None"
  "onTick (pause t) = onTick t"
  "onEnd (pause t) = onEnd t"
  "onModeChange (pause t) = onModeChange t"
  "intervals (pause t) =
     (case interval t of None \<Rightarrow> intervals t | Some i \<Rightarrow> filter (\<lambda>j. j \<noteq> i) (intervals t))"
  "nextHandle (pause t) = nextHandle t"
  "calls (pause t) = calls t"
  by (simp_all add: pause_def clearInterval_def Let_def split: option.split)

lemma start_fields [simp]:
  "durations (start t) = durations t"
  "mode (start t) = mode t"
  "timeLeft (start t) = timeLeft t"
  "isRunning (start t) = True"
  "focusSessions (start t) = focusSessions t"
  "interval (start t) = (if isRunning t then interval t else Some (nextHandle t))"
  "onTick (start t) = onTick t"
  "onEnd (start t) = onEnd t"
  "onModeChange (start t) = onModeChange t"
  "intervals (start t) = (if isRunning t then intervals t else intervals t @ [nextHandle t])"
  "nextHandle (start t) = (if isRunning t then nextHandle t else Suc (nextHandle t))"
  "calls (start t) = calls t"
  by (simp_all add: start_def setInterval_def Let_def)

lemma reset_fields [simp]:
  "durations (reset t) = durations t"
  "mode (reset t) = mode t"
  "timeLeft (reset t) = durations t (mode t)"
  "isRunning (reset t) = False"
  "focusSessions (reset t) = focusSessions t"
  "interval (reset t) = None"
  "onTick (reset t) = onTick t"
  "onEnd (reset t) = onEnd t"
  "onModeChange (reset t) = onModeChange t"
  "intervals (reset t) = intervals (pause t)"
  "nextHandle (reset t) = nextHandle t"
  "calls (reset t) =
     (if onTick t then calls t @ [TickCall (durations t (mode t)) (mode t)] else calls t)"
  by (simp_all add: reset_def Let_def)

lemma setMode_fields [simp]:
  "durations (setMode m t) = durations t"
  "mode (setMode m t) = m"
  "timeLeft (setMode m t) = durations t m"
  "isRunning (setMode m t) = False"
  "focusSessions (setMode m t) = focusSessions t"
  "interval (setMode m t) = None"
  "onTick (setMode m t) = onTick t"
  "onEnd (setMode m t) = onEnd t"
  "onModeChange (setMode m t) = onModeChange t"
  "intervals (setMode m t) = intervals (pause t)"
  "nextHandle (setMode m t) = nextHandle t"
  "calls (setMode m t) =
     calls t @ (if onModeChange t then [ModeChangeCall m] else [])
             @ (if onTick t then [TickCall (durations t m) m] else [])"
  by (simp_all add: setMode_def Let_def split: option.split)

lemma setDuration_fields [simp]:
  "durations (setDuration m k t) = (durations t)(m := max 1 (min 99 k) * 60)"
  "mode (setDuration m k t) = mode t"
  "timeLeft (setDuration m k t) =
     (if mode t = m then max 1 (min 99 k) * 60 else timeLeft t)"
  "isRunning (setDuration m k t) = (if mode t = m then False else isRunning t)"
  "focusSessions (setDuration m k t) = focusSessions t"
  "interval (setDuration m k t) = (if mode t = m then None else interval t)"
  "onTick (setDuration m k t) = onTick t"
  "onEnd (setDuration m k t) = onEnd t"
  "onModeChange (setDuration m k t) = onModeChange t"
  "intervals (setDuration m k t) = (if mode t = m then intervals (pause t) else intervals t)"
  "nextHandle (setDuration m k t) = nextHandle t"
  "calls (setDuration m k t) =
     (if mode t = m \<and> onTick t
      then calls t @ [TickCall (max 1 (min 99 k) * 60) m] else calls t)"
  by (simp_all add: setDuration_def Let_def split: option.split)

lemma handleEnd_fields [simp]:
  "durations (handleEnd t) = durations t"
  "mode (handleEnd t) = nextMode t"
  "timeLeft (handleEnd t) = durations t (nextMode t)"
  "isRunning (handleEnd t) = False"
  "focusSessions (handleEnd t) = (if mode t = Focus then focusSessions t + 1 else focusSessions t)"
  "interval (handleEnd t) = None"
  "onTick (handleEnd t) = onTick t"
  "onEnd (handleEnd t) = onEnd t"
  "onModeChange (handleEnd t) = onModeChange t"
  "intervals (handleEnd t) = intervals (pause t)"
  "nextHandle (handleEnd t) = nextHandle t"
  by (simp_all add: handleEnd_def nextMode_def Let_def split: option.split)

lemma handleEnd_calls:
  "calls (handleEnd t) =
     calls t
     @ (if onEnd t
        then [EndCall (mode t) (if mode t = Focus then focusSessions t + 1 else focusSessions t)]
        else [])
     @ (if onModeChange t then [ModeChangeCall (nextMode t)] else [])
     @ (if onTick t then [TickCall (durations t (nextMode t)) (nextMode t)] else [])"
  by (simp add: handleEnd_def nextMode_def Let_def)

lemma tick_fields [simp]:
  "durations (tick t) = durations t"
  "mode (tick t) = (if timeLeft t \<le> 1 then nextMode t else mode t)"
  "timeLeft (tick t) = (if timeLeft t \<le> 1 then durations t (nextMode t) else timeLeft t - 1)"
  "isRunning (tick t) = (if timeLeft t \<le> 1 then False else isRunning t)"
  "focusSessions (tick t) =
     (if timeLeft t \<le> 1 \<and> mode t = Focus then focusSessions t + 1 else focusSessions t)"
  "interval (tick t) = (if timeLeft t \<le> 1 then None else interval t)"
  "onTick (tick t) = onTick t"
  "onEnd (tick t) = onEnd t"
  "onModeChange (tick t) = onModeChange t"
  "intervals (tick t) = (if timeLeft t \<le> 1 then intervals (pause t) else intervals t)"
  "nextHandle (tick t) = nextHandle t"
  by (simp_all add: tick_def nextMode_def Let_def split: option.split)

lemma consistent_new: "consistent (PomodoroTimer a b c)"
  by (simp add: consistent_def PomodoroTimer_def defaultDurations_def split: mode.split)

lemma consistent_start: "consistent t \<Longrightarrow> consistent (start t)"
  by (auto simp: consistent_def split: option.splits)

lemma consistent_pause: "consistent t \<Longrightarrow> consistent (pause t)"
  by (auto simp: consistent_def split: option.splits)

lemma consistent_toggle: "consistent t \<Longrightarrow> consistent (snd (toggle t))"
  by (simp add: toggle_def Let_def consistent_start consistent_pause)

lemma consistent_reset: "consistent t \<Longrightarrow> consistent (reset t)"
  by (auto simp: consistent_def split: option.splits intro: order_trans)

lemma consistent_setMode:
  assumes "consistent t"
  shows "consistent (setMode m t)"
proof -
  have "60 \<le> durations t m"
    using assms by (simp add: consistent_def)
  then have "1 \<le> durations t m"
    by simp
  then show ?thesis
    using assms by (auto simp: consistent_def split: option.splits)
qed

lemma consistent_setDuration: "consistent t \<Longrightarrow> consistent (setDuration m k t)"
  by (auto simp: consistent_def split: option.splits)

lemma consistent_tick:
  assumes "consistent t"
  shows "consistent (tick t)"
proof -
  have "60 \<le> durations t (nextMode t)"
    using assms by (simp add: consistent_def)
  then have "1 \<le> durations t (nextMode t)"
    by simp
  then show ?thesis
    using assms by (auto simp: consistent_def split: option.splits)
qed

lemma second_eq: "consistent t \<Longrightarrow> second t = (if isRunning t then tick t else t)"
  by (auto simp: consistent_def second_def fire_def split: option.splits)

lemma consistent_second: "consistent t \<Longrightarrow> consistent (second t)"
  by (simp add: second_eq consistent_tick)

lemma consistent_step: "consistent t \<Longrightarrow> consistent (step x t)"
  by (cases x) (simp_all add: consistent_start consistent_pause consistent_toggle
      consistent_reset consistent_setMode consistent_setDuration consistent_second)

lemma consistent_run: "consistent t \<Longrightarrow> consistent (run t xs)"
  by (induction xs arbitrary: t) (simp_all add: consistent_step)

lemma toggle_eq [simp]:
  "fst (toggle t) = (\<not> isRunning t)"
  "snd (toggle t) = (if isRunning t then pause t else start t)"
  by (simp_all add: toggle_def Let_def)

lemma fire_callbacks [simp]:
  "onTick (fire h t) = onTick t"
  "onEnd (fire h t) = onEnd t"
  "onModeChange (fire h t) = onModeChange t"
  by (simp_all add: fire_def)

lemma foldl_fire_callbacks:
  "onTick (foldl (\<lambda>s h. fire h s) t hs) = onTick t \<and>
   onEnd (foldl (\<lambda>s h. fire h s) t hs) = onEnd t \<and>
   onModeChange (foldl (\<lambda>s h. fire h s) t hs) = onModeChange t"
  by (induction hs arbitrary: t) simp_all

lemma second_callbacks [simp]:
  "onTick (second t) = onTick t"
  "onEnd (second t) = onEnd t"
  "onModeChange (second t) = onModeChange t"
  by (simp_all add: second_def foldl_fire_callbacks)

lemma step_callbacks [simp]:
  "onTick (step x t) = onTick t"
  "onEnd (step x t) = onEnd t"
  "onModeChange (step x t) = onModeChange t"
  by (cases x; simp)+

lemma run_callbacks [simp]:
  "onTick (run t ops) = onTick t"
  "onEnd (run t ops) = onEnd t"
  "onModeChange (run t ops) = onModeChange t"
  by (induction ops arbitrary: t; simp)+

lemma new_callbacks [simp]:
  "onTick (PomodoroTimer a b c) = a"
  "onEnd (PomodoroTimer a b c) = b"
  "onModeChange (PomodoroTimer a b c) = c"
  by (simp_all add: PomodoroTimer_def)

lemma reachable_consistent: "consistent (run (PomodoroTimer a b c) ops)"
  by (simp add: consistent_run consistent_new)

section \<open>Counting down\<close>

lemma consistent_paused:
  "consistent t \<Longrightarrow> intervals (pause t) = []"
  by (auto simp: consistent_def split: option.splits)

lemma second_idle: "intervals t = [] \<Longrightarrow> second t = t"
  by (simp add: second_def)

lemma seconds_idle: "intervals t = [] \<Longrightarrow> seconds n t = t"
  by (induction n) (simp_all add: second_idle)

lemma tick_calls:
  "calls (tick t) =
     calls t
     @ (if onTick t then [TickCall (timeLeft t - 1) (mode t)] else [])
     @ (if timeLeft t \<le> 1
        then (if onEnd t
              then [EndCall (mode t)
                      (if mode t = Focus then focusSessions t + 1 else focusSessions t)]
              else [])
             @ (if onModeChange t then [ModeChangeCall (nextMode t)] else [])
             @ (if onTick t then [TickCall (durations t (nextMode t)) (nextMode t)] else [])
        else [])"
  by (simp add: tick_def Let_def handleEnd_calls nextMode_def)

lemma seconds_snoc: "seconds (Suc n) t = second (seconds n t)"
  by (induction n arbitrary: t) simp_all

lemma run_append: "run t (xs @ ys) = run (run t xs) ys"
  by (induction xs arbitrary: t) simp_all

lemma run_ticks: "run t (replicate n Tick) = seconds n t"
  by (induction n arbitrary: t) simp_all

lemma countdown:
  "consistent t \<Longrightarrow> isRunning t \<Longrightarrow> int n < timeLeft t \<Longrightarrow>
   consistent (seconds n t) \<and> isRunning (seconds n t) \<and>
   timeLeft (seconds n t) = timeLeft t - int n \<and>
   mode (seconds n t) = mode t \<and>
   focusSessions (seconds n t) = focusSessions t \<and>
   durations (seconds n t) = durations t"
proof (induction n arbitrary: t)
  case 0
  then show ?case by simp
next
  case (Suc n)
  have s: "second t = tick t"
    using Suc.prems by (simp add: second_eq)
  have big: "\<not> timeLeft t \<le> 1"
    using Suc.prems by simp
  have "consistent (tick t)" "isRunning (tick t)" "int n < timeLeft (tick t)"
    using Suc.prems big by (simp_all add: consistent_tick)
  then have "consistent (seconds n (tick t)) \<and> isRunning (seconds n (tick t)) \<and>
   timeLeft (seconds n (tick t)) = timeLeft (tick t) - int n \<and>
   mode (seconds n (tick t)) = mode (tick t) \<and>
   focusSessions (seconds n (tick t)) = focusSessions (tick t) \<and>
   durations (seconds n (tick t)) = durations (tick t)"
    by (rule Suc.IH)
  then show ?case
    using big by (simp add: s)
qed

lemma session:
  assumes c: "consistent t" and l: "timeLeft t = int (Suc n)"
  shows "consistent (run t (Start # replicate (Suc n) Tick)) \<and>
         mode (run t (Start # replicate (Suc n) Tick)) = nextMode t \<and>
         timeLeft (run t (Start # replicate (Suc n) Tick)) = durations t (nextMode t) \<and>
         focusSessions (run t (Start # replicate (Suc n) Tick)) =
           (if mode t = Focus then focusSessions t + 1 else focusSessions t) \<and>
         durations (run t (Start # replicate (Suc n) Tick)) = durations t"
proof -
  let ?u = "seconds n (start t)"
  have cs: "consistent (start t)"
    using c by (rule consistent_start)
  have "int n < timeLeft (start t)"
    using l by simp
  with cs have u: "consistent ?u \<and> isRunning ?u \<and>
   timeLeft ?u = timeLeft (start t) - int n \<and>
   mode ?u = mode (start t) \<and>
   focusSessions ?u = focusSessions (start t) \<and>
   durations ?u = durations (start t)"
    by (intro countdown) simp_all
  have r: "run t (Start # replicate (Suc n) Tick) = second ?u"
    by (simp only: run.simps step.simps run_ticks seconds_snoc)
  have s: "second ?u = tick ?u"
    using u by (simp add: second_eq)
  have one: "timeLeft ?u = 1"
    using u l by simp
  have nm: "nextMode ?u = nextMode t"
    using u by (simp add: nextMode_def)
  have "consistent (tick ?u)"
    using u by (simp add: consistent_tick)
  then show ?thesis
    using u one nm by (simp only: r s) simp
qed

lemma smod4: "(k::int) smod 4 = 0 \<longleftrightarrow> k mod 4 = 0"
  by (simp add: signed_modulo_int_def sgn_if) presburger

lemma new_fields [simp]:
  "durations (PomodoroTimer a b c) = defaultDurations"
  "mode (PomodoroTimer a b c) = Focus"
  "timeLeft (PomodoroTimer a b c) = 1500"
  "isRunning (PomodoroTimer a b c) = False"
  "focusSessions (PomodoroTimer a b c) = 0"
  "interval (PomodoroTimer a b c) = None"
  "intervals (PomodoroTimer a b c) = []"
  "nextHandle (PomodoroTimer a b c) = 0"
  "calls (PomodoroTimer a b c) = []"
  by (simp_all add: PomodoroTimer_def defaultDurations_def)

lemma lastSecond_state:
  "isRunning (run (PomodoroTimer a b c) (lastSecond m)) \<and>
   mode (run (PomodoroTimer a b c) (lastSecond m)) = m \<and>
   timeLeft (run (PomodoroTimer a b c) (lastSecond m)) = 1 \<and>
   focusSessions (run (PomodoroTimer a b c) (lastSecond m)) = 0 \<and>
   durations (run (PomodoroTimer a b c) (lastSecond m)) = defaultDurations(m := 60)"
proof -
  let ?s = "start (setDuration m 1 (setMode m (PomodoroTimer a b c)))"
  have r: "run (PomodoroTimer a b c) (lastSecond m) = seconds 59 ?s"
    by (simp only: lastSecond_def run.simps step.simps run_ticks)
  have "consistent ?s"
    by (simp add: consistent_start consistent_setDuration consistent_setMode consistent_new)
  moreover have "isRunning ?s" "int 59 < timeLeft ?s"
    by simp_all
  ultimately have "consistent (seconds 59 ?s) \<and> isRunning (seconds 59 ?s) \<and>
   timeLeft (seconds 59 ?s) = timeLeft ?s - int 59 \<and>
   mode (seconds 59 ?s) = mode ?s \<and>
   focusSessions (seconds 59 ?s) = focusSessions ?s \<and>
   durations (seconds 59 ?s) = durations ?s"
    by (rule countdown)
  then show ?thesis
    by (simp add: r)
qed

lemma session_pos:
  assumes "consistent t" and "timeLeft t = int k" and "0 < k"
  shows "consistent (run t (Start # replicate k Tick)) \<and>
         mode (run t (Start # replicate k Tick)) = nextMode t \<and>
         timeLeft (run t (Start # replicate k Tick)) = durations t (nextMode t) \<and>
         focusSessions (run t (Start # replicate k Tick)) =
           (if mode t = Focus then focusSessions t + 1 else focusSessions t) \<and>
         durations (run t (Start # replicate k Tick)) = durations t"
proof -
  obtain n where k: "k = Suc n"
    using assms(3) by (cases k) simp_all
  show ?thesis
    unfolding k using assms(1) assms(2) [unfolded k] by (rule session)
qed

lemma fresh_focus:
  "fresh t Focus k \<Longrightarrow>
   fresh (run t focusSession) (if (k + 1) mod 4 = 0 then Long else Short) (k + 1)"
  using session_pos [of t 1500]
  by (simp add: fresh_def focusSession_def nextMode_def defaultDurations_def smod4)

lemma fresh_short: "fresh t Short k \<Longrightarrow> fresh (run t shortBreak) Focus k"
  using session_pos [of t 300]
  by (simp add: fresh_def shortBreak_def nextMode_def defaultDurations_def)

lemma fresh_long: "fresh t Long k \<Longrightarrow> fresh (run t longBreak) Focus k"
  using session_pos [of t 900]
  by (simp add: fresh_def longBreak_def nextMode_def defaultDurations_def)

lemma fresh_new: "fresh (PomodoroTimer a b c) Focus 0"
  by (simp add: fresh_def consistent_new defaultDurations_def)

lemma fresh_cycle:
  "fresh t Focus k \<Longrightarrow> (k + 1) mod 4 \<noteq> 0 \<Longrightarrow>
   fresh (run t (focusSession @ shortBreak)) Focus (k + 1)"
  using fresh_short [of "run t focusSession" "k + 1"] fresh_focus [of t k]
  by (simp add: run_append)

lemma start_running: "isRunning t \<Longrightarrow> start t = t"
  by (simp add: start_def)

lemma pause_paused:
  assumes "consistent t" and "\<not> isRunning t"
  shows "pause t = t"
proof (rule timer.equality)
  show "intervals (pause t) = intervals t"
    using assms by (simp add: consistent_def)
  show "interval (pause t) = interval t"
    using assms by (simp add: consistent_def)
  show "isRunning (pause t) = isRunning t"
    using assms by simp
  show "timer.more (pause t) = timer.more t"
    by (simp add: pause_def clearInterval_def Let_def split: option.split)
qed simp_all

section \<open>Decimal rendering\<close>

lemma digit_cases:
  "d < 10 \<Longrightarrow> d = 0 \<or> d = 1 \<or> d = 2 \<or> d = 3 \<or> d = 4 \<or> d = 5 \<or> d = 6 \<or> d = 7 \<or> d = 8 \<or> d = (9::nat)"
  by arith

lemma digit_isDigit: "d < 10 \<Longrightarrow> isDigit (digit d)"
  using digit_cases [of d] by (auto simp: isDigit_def digit_def)

lemma digit_value: "d < 10 \<Longrightarrow> digitValue (digit d) = d"
  using digit_cases [of d] by (auto simp: digitValue_def digit_def)

lemma digit_zero: "digit 0 = CHR ''0''"
  by (simp add: digit_def)

lemma digit_nonzero: "0 < d \<Longrightarrow> d < 10 \<Longrightarrow> digit d \<noteq> CHR ''0''"
  using digit_cases [of d] by (auto simp: digit_def)

lemma numberOf_snoc: "numberOf (xs @ [c]) = 10 * numberOf xs + digitValue c"
  by (simp add: numberOf_def)

lemma decimal_digits: "\<forall>c\<in>set (decimal n). isDigit c"
proof (induction n rule: decimal.induct)
  case (1 n)
  show ?case
  proof (cases "n < 10")
    case True
    then show ?thesis
      by (subst decimal.simps) (simp add: digit_isDigit)
  next
    case False
    then show ?thesis
      using 1 by (subst decimal.simps) (simp add: digit_isDigit)
  qed
qed

lemma decimal_value: "numberOf (decimal n) = n"
proof (induction n rule: decimal.induct)
  case (1 n)
  show ?case
  proof (cases "n < 10")
    case True
    then show ?thesis
      by (subst decimal.simps) (simp add: numberOf_def digit_value)
  next
    case False
    then have "numberOf (decimal (n div 10)) = n div 10"
      using 1 by simp
    then show ?thesis
      using False by (subst decimal.simps) (simp add: numberOf_snoc digit_value)
  qed
qed

lemma decimal_nonempty: "decimal n \<noteq> []"
  by (subst decimal.simps) simp

lemma decimal_hd: "0 < n \<Longrightarrow> hd (decimal n) \<noteq> CHR ''0''"
proof (induction n rule: decimal.induct)
  case (1 n)
  show ?case
  proof (cases "n < 10")
    case True
    then show ?thesis
      using "1.prems" by (subst decimal.simps) (simp add: digit_nonzero)
  next
    case False
    then have "hd (decimal (n div 10)) \<noteq> CHR ''0''"
      using 1 by simp
    then show ?thesis
      using False by (subst decimal.simps) (simp add: decimal_nonempty)
  qed
qed

lemma decimal_length1: "n < 10 \<Longrightarrow> length (decimal n) = 1"
  by (subst decimal.simps) simp

lemma decimal_length2: "10 \<le> n \<Longrightarrow> n < 100 \<Longrightarrow> length (decimal n) = 2"
  by (subst decimal.simps) (simp add: decimal_length1)

lemma decimal_length3: "100 \<le> n \<Longrightarrow> 2 < length (decimal n)"
proof -
  assume n: "100 \<le> n"
  have "length (decimal (n div 10)) \<ge> 2"
  proof -
    have a: "10 \<le> n div 10" using n by simp
    have "length (decimal (n div 10)) = length (decimal (n div 10 div 10)) + 1"
      using a by (subst decimal.simps) simp
    moreover have "length (decimal (n div 10 div 10)) \<ge> 1"
      using decimal_nonempty [of "n div 10 div 10"] by (cases "decimal (n div 10 div 10)") simp_all
    ultimately show ?thesis by simp
  qed
  then show ?thesis
    using n by (subst decimal.simps) simp
qed

lemma numberOf_zeros: "numberOf (replicate k CHR ''0'' @ xs) = numberOf xs"
proof -
  have "foldl (\<lambda>a c. 10 * a + digitValue c) 0 (replicate k CHR ''0'') = 0"
    by (induction k) (simp_all add: digitValue_def)
  then show ?thesis
    by (simp add: numberOf_def)
qed

lemma numberOf_zero_Cons: "numberOf (CHR ''0'' # xs) = numberOf xs"
  using numberOf_zeros [of 1 xs] by simp

lemma isDigit_zero: "isDigit CHR ''0''"
  by (simp add: isDigit_def)

lemma padded:
  "(\<forall>c\<in>set (padStart 2 CHR ''0'' (decimal n)). isDigit c) \<and>
   numberOf (padStart 2 CHR ''0'' (decimal n)) = n \<and>
   2 \<le> length (padStart 2 CHR ''0'' (decimal n)) \<and>
   (n < 100 \<longrightarrow> length (padStart 2 CHR ''0'' (decimal n)) = 2) \<and>
   (100 \<le> n \<longrightarrow> 2 < length (padStart 2 CHR ''0'' (decimal n)) \<and>
      hd (padStart 2 CHR ''0'' (decimal n)) \<noteq> CHR ''0'')"
proof -
  consider "n < 10" | "10 \<le> n" "n < 100" | "100 \<le> n"
    by linarith
  then show ?thesis
  proof cases
    case 1
    then show ?thesis
      using decimal_digits [of n]
      by (auto simp: padStart_def numberOf_zero_Cons decimal_value decimal_length1 isDigit_zero)
  next
    case 2
    then show ?thesis
      using decimal_digits [of n]
      by (auto simp: padStart_def numberOf_zeros decimal_value decimal_length2)
  next
    case 3
    then show ?thesis
      using decimal_digits [of n] decimal_length3 [of n] decimal_hd [of n]
      by (auto simp: padStart_def numberOf_zeros decimal_value)
  qed
qed

section \<open>Division and rendering on the safe integers\<close>

lemma bits_bound: "n < 2 ^ k \<Longrightarrow> bits n \<le> k"
proof (induction k arbitrary: n)
  case 0
  then show ?case by (simp add: bits.simps)
next
  case (Suc k)
  show ?case
  proof (cases "n = 0")
    case True
    then show ?thesis by (simp add: bits.simps)
  next
    case False
    have "n div 2 < 2 ^ k"
      using Suc.prems by simp
    then have "bits (n div 2) \<le> k"
      by (rule Suc.IH)
    then show ?thesis
      using False by (subst bits.simps) simp
  qed
qed

lemma exponent_bound:
  assumes "0 < s" and "s < 2 ^ 53"
  shows "exponent s 60 \<le> 47"
proof (cases "60 \<le> s")
  case True
  have "s div 60 < 2 ^ 48"
    using assms by simp
  then have "nat (s div 60) < 2 ^ 48"
    using assms by (simp add: nat_less_iff)
  then have "bits (nat (s div 60)) \<le> 48"
    by (rule bits_bound)
  then show ?thesis
    using True by (simp add: exponent_def)
next
  case False
  then show ?thesis
    by (simp add: exponent_def)
qed

lemma rounded_quotient:
  fixes s P :: int
  assumes s: "0 \<le> s" and P: "30 < P"
    and m: "m = (s * P) div 60 \<or> (m = (s * P) div 60 + 1 \<and> 30 \<le> (s * P) mod 60)"
  shows "m div P = s div 60"
proof -
  define k where "k = s div 60"
  define t where "t = s mod 60"
  define d where "d = (t * P) div 60"
  define r where "r = (t * P) mod 60"
  have st: "s = 60 * k + t" and t: "0 \<le> t" "t \<le> 59"
    by (simp_all add: k_def t_def) 
  have sP: "s * P = (k * P) * 60 + t * P"
    by (simp add: st algebra_simps)
  have q: "(s * P) div 60 = k * P + d"
    unfolding sP d_def by simp
  have rr: "(s * P) mod 60 = r"
    unfolding sP r_def by simp
  have tP: "t * P = 60 * d + r" and r: "0 \<le> r" "r < 60"
    by (simp_all add: d_def r_def)
  have tP0: "0 \<le> t * P"
    using t P by simp
  have tP59: "t * P \<le> 59 * P"
    using t P by (intro mult_right_mono) simp_all
  have d0: "0 \<le> d"
    using tP0 by (simp add: d_def pos_imp_zdiv_nonneg_iff)
  have dP: "d < P"
    using tP tP59 r P by linarith
  have up: "d + 1 < P" if "30 \<le> r"
    using that tP tP59 P by linarith
  have e: "(k * P + x) div P = k" if "0 \<le> x" "x < P" for x
    using that P by (simp add: div_pos_pos_trivial)
  from m show ?thesis
  proof
    assume "m = (s * P) div 60"
    then show ?thesis
      using e [OF d0 dP] by (simp add: q k_def)
  next
    assume a: "m = (s * P) div 60 + 1 \<and> 30 \<le> (s * P) mod 60"
    then have "30 \<le> r"
      by (simp add: rr)
    then have "d + 1 < P"
      by (rule up)
    moreover have "0 \<le> d + 1"
      using d0 by simp
    ultimately have "(k * P + (d + 1)) div P = k"
      by (intro e)
    then show ?thesis
      using a by (simp add: q k_def add.assoc)
  qed
qed

lemma floor_quotient:
  assumes "0 \<le> s" and "s < 2 ^ 53"
  shows "Math_floor (nearest s 60) = s div 60"
proof (cases "s = 0")
  case True
  then show ?thesis
    by (simp add: nearest_def Math_floor_def)
next
  case False
  then have pos: "0 < s"
    using assms by simp
  define p where "p = 52 - exponent s 60"
  have p5: "5 \<le> p"
    using exponent_bound [OF pos assms(2)] by (simp add: p_def)
  define P :: int where "P = 2 ^ nat p"
  have "(2::int) ^ 5 \<le> 2 ^ nat p"
    using p5 by (intro power_increasing) simp_all
  then have P: "30 < P"
    by (simp add: P_def)
  define q where "q = (s * P) div 60"
  define r where "r = (s * P) mod 60"
  define m where "m = (if 60 < 2 * r \<or> (2 * r = 60 \<and> odd q) then q + 1 else q)"
  have n: "nearest s 60 = (m, p)"
    using pos p5 by (simp add: nearest_def Let_def p_def [symmetric] P_def [symmetric]
        q_def [symmetric] r_def [symmetric] m_def)
  have "m = (s * P) div 60 \<or> (m = (s * P) div 60 + 1 \<and> 30 \<le> (s * P) mod 60)"
    by (auto simp: m_def q_def r_def)
  then have "m div P = s div 60"
    using assms(1) P by (intro rounded_quotient)
  then show ?thesis
    using p5 by (simp add: n Math_floor_def P_def)
qed

lemma String_safe: "0 \<le> k \<Longrightarrow> k < 2 ^ 53 \<Longrightarrow> String k = decimal (nat k)"
  by (simp add: String_def Number_toString_def nat_less_iff)

lemma zeroPadded2_padStart: "zeroPadded2 n = padStart 2 CHR ''0'' (decimal n)"
proof -
  consider "n < 10" | "10 \<le> n" "n < 100" | "100 \<le> n"
    by linarith
  then show ?thesis
  proof cases
    case 1
    then show ?thesis
      by (simp add: zeroPadded2_def padStart_def decimal_length1)
  next
    case 2
    then show ?thesis
      by (simp add: zeroPadded2_def padStart_def decimal_length2)
  next
    case 3
    then show ?thesis
      using decimal_length3 [of n] by (simp add: zeroPadded2_def padStart_def)
  qed
qed

lemma format_safe:
  assumes "0 \<le> s" and "s < 2 ^ 53"
  shows "format s =
           padStart 2 CHR ''0'' (decimal (nat (s div 60))) @ '':''
           @ padStart 2 CHR ''0'' (decimal (nat (s mod 60)))"
proof -
  have sm: "s smod 60 = s mod 60"
    using assms(1) by (simp add: signed_modulo_int_def sgn_if)
  have q: "0 \<le> s div 60" "s div 60 < 2 ^ 53"
    using assms by simp_all
  have r: "0 \<le> s mod 60" "s mod 60 < 2 ^ 53"
  proof -
    show "0 \<le> s mod 60" by simp
    have "s mod 60 < 60" by simp
    then show "s mod 60 < 2 ^ 53" by simp
  qed
  show ?thesis
    by (simp only: format_def Let_def floor_quotient [OF assms] sm
        String_safe [OF q] String_safe [OF r])
qed

section \<open>Natural expiry\<close>

text \<open>
  Claim C1. A focus session with one second left and no completed session, left to run:
  the tick sets \<open>timeLeft\<close> to 0 and invokes \<open>onTick(0, 'focus')\<close>, and only then is
  the expiry handled, on that state; the handling invokes \<open>onEnd('focus', 1)\<close>, then
  \<open>onModeChange('short')\<close>, then \<open>onTick(durations.short, 'short')\<close>. These four
  invocations, in this order, are all that the second adds to the history.
\<close>

theorem natural_expiry_calls:
  assumes "t = run (PomodoroTimer True True True) ops"
    and "isRunning t" and "mode t = Focus" and "timeLeft t = 1" and "focusSessions t = 0"
  shows "second t = handleEnd (emit True (TickCall 0 Focus) (t\<lparr>timeLeft := 0\<rparr>)) \<and>
         calls (second t) =
           calls t @ [TickCall 0 Focus, EndCall Focus 1, ModeChangeCall Short,
                      TickCall (durations t Short) Short] \<and>
         mode (second t) = Short \<and>
         timeLeft (second t) = durations t Short \<and>
         focusSessions (second t) = 1"
proof -
  have "consistent t"
    using assms(1) by (simp add: reachable_consistent)
  then have s: "second t = tick t"
    using assms(2) by (simp add: second_eq)
  have cb: "onTick t" "onEnd t" "onModeChange t"
    using assms(1) by simp_all
  have nm: "nextMode t = Short"
    using assms by (simp add: nextMode_def signed_modulo_int_def)
  have e: "tick t = handleEnd (emit True (TickCall 0 Focus) (t\<lparr>timeLeft := 0\<rparr>))"
    using assms(3,4) cb by (simp add: tick_def Let_def)
  have r: "calls (tick t) =
           calls t @ [TickCall 0 Focus, EndCall Focus 1, ModeChangeCall Short,
                      TickCall (durations t Short) Short] \<and>
         mode (tick t) = Short \<and>
         timeLeft (tick t) = durations t Short \<and>
         focusSessions (tick t) = 1"
    using assms(2-5) cb nm by (simp add: tick_calls)
  show ?thesis
    using e r unfolding s by (rule conjI)
qed

theorem natural_expiry_calls_witness:
  "isRunning (run (PomodoroTimer True True True) (lastSecond Focus)) \<and>
   mode (run (PomodoroTimer True True True) (lastSecond Focus)) = Focus \<and>
   timeLeft (run (PomodoroTimer True True True) (lastSecond Focus)) = 1 \<and>
   focusSessions (run (PomodoroTimer True True True) (lastSecond Focus)) = 0 \<and>
   calls (second (run (PomodoroTimer True True True) (lastSecond Focus))) =
     calls (run (PomodoroTimer True True True) (lastSecond Focus))
     @ [TickCall 0 Focus, EndCall Focus 1, ModeChangeCall Short, TickCall 300 Short]"
proof -
  let ?t = "run (PomodoroTimer True True True) (lastSecond Focus)"
  have h: "isRunning ?t" "mode ?t = Focus" "timeLeft ?t = 1" "focusSessions ?t = 0"
    and d: "durations ?t = defaultDurations(Focus := 60)"
    using lastSecond_state [of True True True Focus] by simp_all
  show ?thesis
    using natural_expiry_calls [OF refl h, THEN conjunct2] h d by (simp add: defaultDurations_def)
qed

text \<open>
  Claim C2. At every natural expiry, that is whenever a second passes on a running timer with
  one second left: a focus session increments the counter, and the next mode is long exactly
  when the incremented counter is divisible by 4 and short otherwise; a short or long break
  is followed by focus. From a new timer with the default durations, the first focus expiry
  leads to short, the fourth consecutive one to long, and the fifth to short again.
\<close>

theorem next_mode_after_expiry:
  "(\<forall>ops. isRunning (run (PomodoroTimer a b c) ops) \<and> timeLeft (run (PomodoroTimer a b c) ops) = 1 \<longrightarrow>
      (mode (run (PomodoroTimer a b c) ops) = Focus \<longrightarrow>
         focusSessions (second (run (PomodoroTimer a b c) ops)) =
           focusSessions (run (PomodoroTimer a b c) ops) + 1 \<and>
         mode (second (run (PomodoroTimer a b c) ops)) =
           (if focusSessions (second (run (PomodoroTimer a b c) ops)) mod 4 = 0
            then Long else Short)) \<and>
      (mode (run (PomodoroTimer a b c) ops) \<noteq> Focus \<longrightarrow>
         mode (second (run (PomodoroTimer a b c) ops)) = Focus)) \<and>
   mode (run (PomodoroTimer a b c) focusSession) = Short \<and>
   mode (run (PomodoroTimer a b c)
          (focusSession @ shortBreak @ focusSession @ shortBreak @ focusSession @ shortBreak
           @ focusSession)) = Long \<and>
   mode (run (PomodoroTimer a b c)
          (focusSession @ shortBreak @ focusSession @ shortBreak @ focusSession @ shortBreak
           @ focusSession @ longBreak @ focusSession)) = Short"
proof -
  let ?n = "PomodoroTimer a b c"
  have general: "(mode (run ?n ops) = Focus \<longrightarrow>
         focusSessions (second (run ?n ops)) = focusSessions (run ?n ops) + 1 \<and>
         mode (second (run ?n ops)) =
           (if focusSessions (second (run ?n ops)) mod 4 = 0 then Long else Short)) \<and>
      (mode (run ?n ops) \<noteq> Focus \<longrightarrow> mode (second (run ?n ops)) = Focus)"
    if "isRunning (run ?n ops)" and "timeLeft (run ?n ops) = 1" for ops
  proof -
    have "consistent (run ?n ops)"
      by (rule reachable_consistent)
    then have "second (run ?n ops) = tick (run ?n ops)"
      using that by (simp add: second_eq)
    then show ?thesis
      using that by (simp add: nextMode_def smod4)
  qed
  have f1: "fresh (run ?n focusSession) Short 1"
    using fresh_focus [OF fresh_new, of a b c] by simp
  have c1: "fresh (run ?n (focusSession @ shortBreak)) Focus 1"
    using fresh_cycle [OF fresh_new, of a b c] by simp
  have c2: "fresh (run (run ?n (focusSession @ shortBreak)) (focusSession @ shortBreak)) Focus 2"
    using fresh_cycle [OF c1] by simp
  have c3: "fresh (run (run (run ?n (focusSession @ shortBreak)) (focusSession @ shortBreak))
                    (focusSession @ shortBreak)) Focus 3"
    using fresh_cycle [OF c2] by simp
  have f4: "fresh (run (run (run (run ?n (focusSession @ shortBreak)) (focusSession @ shortBreak))
                    (focusSession @ shortBreak)) focusSession) Long 4"
    using fresh_focus [OF c3] by simp
  have c4: "fresh (run (run (run (run (run ?n (focusSession @ shortBreak)) (focusSession @ shortBreak))
                    (focusSession @ shortBreak)) focusSession) longBreak) Focus 4"
    using fresh_long [OF f4] by simp
  have f5: "fresh (run (run (run (run (run (run ?n (focusSession @ shortBreak)) (focusSession @ shortBreak))
                    (focusSession @ shortBreak)) focusSession) longBreak) focusSession) Short 5"
    using fresh_focus [OF c4] by simp
  show ?thesis
    using general f1 f4 f5 by (simp add: run_append fresh_def)
qed

theorem next_mode_after_expiry_witness:
  "isRunning (run (PomodoroTimer True True True) (lastSecond Focus)) \<and>
   timeLeft (run (PomodoroTimer True True True) (lastSecond Focus)) = 1 \<and>
   mode (run (PomodoroTimer True True True) (lastSecond Focus)) = Focus \<and>
   focusSessions (second (run (PomodoroTimer True True True) (lastSecond Focus))) = 1 \<and>
   mode (second (run (PomodoroTimer True True True) (lastSecond Focus))) = Short \<and>
   isRunning (run (PomodoroTimer True True True) (lastSecond Long)) \<and>
   timeLeft (run (PomodoroTimer True True True) (lastSecond Long)) = 1 \<and>
   mode (run (PomodoroTimer True True True) (lastSecond Long)) = Long \<and>
   mode (second (run (PomodoroTimer True True True) (lastSecond Long))) = Focus"
  using next_mode_after_expiry [of True True True, THEN conjunct1, THEN spec, of "lastSecond Focus"]
    next_mode_after_expiry [of True True True, THEN conjunct1, THEN spec, of "lastSecond Long"]
    lastSecond_state [of True True True Focus] lastSecond_state [of True True True Long]
  by simp

section \<open>Invariants of the countdown and of the session counter\<close>

text \<open>
  Claim C3. In every state reached from a new timer by start, pause, toggle, reset, setMode,
  setDuration and passing seconds, \<open>timeLeft\<close> lies between 0 and the duration of the
  current mode. No step between two running states increases \<open>timeLeft\<close>, and a second
  that does not expire the session decreases it by exactly 1. After reset, after setMode and
  after the automatic advance at expiry, \<open>timeLeft\<close> is the duration of the current mode.
\<close>

theorem timeLeft_bounds:
  assumes "t = run (PomodoroTimer a b c) ops"
  shows "0 \<le> timeLeft t \<and> timeLeft t \<le> durations t (mode t) \<and>
         (isRunning t \<and> isRunning (step x t) \<longrightarrow> timeLeft (step x t) \<le> timeLeft t) \<and>
         (isRunning t \<and> 1 < timeLeft t \<longrightarrow>
            isRunning (second t) \<and> timeLeft (second t) = timeLeft t - 1) \<and>
         timeLeft (reset t) = durations (reset t) (mode (reset t)) \<and>
         timeLeft (setMode m t) = durations (setMode m t) (mode (setMode m t)) \<and>
         (isRunning t \<and> timeLeft t = 1 \<longrightarrow>
            timeLeft (second t) = durations (second t) (mode (second t)))"
proof -
  have c: "consistent t"
    using assms by (simp add: reachable_consistent)
  have s: "second t = (if isRunning t then tick t else t)"
    using c by (rule second_eq)
  have b: "1 \<le> timeLeft t" "timeLeft t \<le> durations t (mode t)"
    using c by (simp_all add: consistent_def)
  have m: "isRunning t \<and> isRunning (step x t) \<longrightarrow> timeLeft (step x t) \<le> timeLeft t"
    by (cases x) (simp_all add: s)
  show ?thesis
    using b m by (simp add: s)
qed

theorem timeLeft_bounds_witness:
  "timeLeft (run (PomodoroTimer True True True) [Start, Tick, Tick]) = 1498 \<and>
   durations (run (PomodoroTimer True True True) [Start, Tick, Tick]) Focus = 1500 \<and>
   isRunning (run (PomodoroTimer True True True) [Start, Tick, Tick]) \<and>
   isRunning (second (run (PomodoroTimer True True True) [Start, Tick, Tick])) \<and>
   timeLeft (second (run (PomodoroTimer True True True) [Start, Tick, Tick])) = 1497 \<and>
   timeLeft (reset (run (PomodoroTimer True True True) [Start, Tick, Tick])) = 1500 \<and>
   isRunning (run (PomodoroTimer True True True) (lastSecond Focus)) \<and>
   timeLeft (run (PomodoroTimer True True True) (lastSecond Focus)) = 1 \<and>
   timeLeft (second (run (PomodoroTimer True True True) (lastSecond Focus))) =
     durations (second (run (PomodoroTimer True True True) (lastSecond Focus)))
       (mode (second (run (PomodoroTimer True True True) (lastSecond Focus))))"
  using timeLeft_bounds [OF refl, of True True True "[Start, Tick, Tick]" Tick Short]
    timeLeft_bounds [OF refl, of True True True "lastSecond Focus" Tick Short]
    lastSecond_state [of True True True Focus]
  by (simp add: second_def fire_def defaultDurations_def)

text \<open>
  Claim C4. The counter of completed focus sessions is 0 in a new timer, is never negative and
  never decreases along any history. start, pause, toggle, reset, setMode and setDuration leave
  it unchanged; a passing second changes it only when it expires a focus session, and then adds
  exactly 1; the expiry of a short or long break leaves it unchanged.
\<close>

theorem focusSessions_counter:
  assumes "t = run (PomodoroTimer a b c) ops"
  shows "focusSessions (PomodoroTimer a b c) = 0 \<and>
         0 \<le> focusSessions t \<and>
         focusSessions t \<le> focusSessions (run t more_ops) \<and>
         focusSessions (start t) = focusSessions t \<and>
         focusSessions (pause t) = focusSessions t \<and>
         focusSessions (snd (toggle t)) = focusSessions t \<and>
         focusSessions (reset t) = focusSessions t \<and>
         focusSessions (setMode m t) = focusSessions t \<and>
         focusSessions (setDuration m k t) = focusSessions t \<and>
         focusSessions (second t) =
           (if isRunning t \<and> timeLeft t = 1 \<and> mode t = Focus
            then focusSessions t + 1 else focusSessions t)"
proof -
  have sec: "focusSessions (second u) =
           (if isRunning u \<and> timeLeft u = 1 \<and> mode u = Focus
            then focusSessions u + 1 else focusSessions u)" if "consistent u" for u
    using that by (auto simp: second_eq consistent_def)
  have stp: "focusSessions u \<le> focusSessions (step x u)" if "consistent u" for u x
    using sec [OF that] by (cases x) simp_all
  have mono: "consistent u \<Longrightarrow> focusSessions u \<le> focusSessions (run u xs)" for u xs
  proof (induction xs arbitrary: u)
    case Nil
    then show ?case by simp
  next
    case (Cons x xs)
    have "focusSessions u \<le> focusSessions (step x u)"
      using Cons.prems by (rule stp)
    moreover have "focusSessions (step x u) \<le> focusSessions (run (step x u) xs)"
      using Cons.prems by (intro Cons.IH consistent_step)
    ultimately show ?case by simp
  qed
  have c: "consistent t"
    using assms by (simp add: reachable_consistent)
  have "0 \<le> focusSessions t"
    using c by (simp add: consistent_def)
  then show ?thesis
    using sec [OF c] mono [OF c, of more_ops] by simp
qed

theorem focusSessions_counter_witness:
  "focusSessions (run (PomodoroTimer True True True) (lastSecond Focus)) = 0 \<and>
   focusSessions (second (run (PomodoroTimer True True True) (lastSecond Focus))) = 1 \<and>
   focusSessions (setMode Short (run (PomodoroTimer True True True) (lastSecond Focus))) = 0 \<and>
   focusSessions (reset (run (PomodoroTimer True True True) (lastSecond Focus))) = 0 \<and>
   focusSessions (second (run (PomodoroTimer True True True) (lastSecond Short))) = 0"
  using focusSessions_counter [OF refl, of True True True "lastSecond Focus" "[]" Short 1]
    focusSessions_counter [OF refl, of True True True "lastSecond Short" "[]" Short 1]
    lastSecond_state [of True True True Focus] lastSecond_state [of True True True Short]
  by simp

section \<open>Configured durations\<close>

text \<open>
  Claim C5. For every mode and every integer number of minutes, \<open>setDuration\<close> stores the
  minutes clamped to the range from 1 to 99, times 60, as that mode's duration; the method has
  no failing branch. Hence for minutes from 1 to 99, \<open>setDuration\<close> followed by
  \<open>setMode\<close> of the same mode leaves \<open>timeLeft\<close> at minutes times 60, and below 1 or
  above 99 the stored duration is 60 or 99 times 60 seconds.
\<close>

theorem setDuration_clamps:
  "durations (setDuration m k t) m = (if k < 1 then 1 else if 99 < k then 99 else k) * 60 \<and>
   (1 \<le> k \<and> k \<le> 99 \<longrightarrow> timeLeft (setMode m (setDuration m k t)) = k * 60) \<and>
   (k < 1 \<longrightarrow> durations (setDuration m k t) m = 60) \<and>
   (99 < k \<longrightarrow> durations (setDuration m k t) m = 99 * 60)"
  by simp

theorem setDuration_clamps_witness:
  "durations (setDuration Short 7 (PomodoroTimer True True True)) Short = 420 \<and>
   timeLeft (setMode Short (setDuration Short 7 (PomodoroTimer True True True))) = 420 \<and>
   durations (setDuration Long (- 3) (PomodoroTimer True True True)) Long = 60 \<and>
   durations (setDuration Focus 250 (PomodoroTimer True True True)) Focus = 5940"
  using setDuration_clamps [of Short 7 "PomodoroTimer True True True"]
    setDuration_clamps [of Long "- 3" "PomodoroTimer True True True"]
    setDuration_clamps [of Focus 250 "PomodoroTimer True True True"]
  by simp

section \<open>Starting, pausing and resetting\<close>

text \<open>
  Claim C6. On a new timer \<open>toggle\<close> returns true and a second \<open>toggle\<close> returns
  false. In every reachable state at most one interval is live: exactly one while running,
  none while paused. \<open>start\<close> on a running timer and \<open>pause\<close> on a paused timer
  return the state unchanged. After two \<open>start\<close> calls in a row one interval is live, and
  three seconds later \<open>timeLeft\<close> is smaller by exactly 3.
\<close>

theorem single_countdown:
  assumes "t = run (PomodoroTimer a b c) ops"
  shows "fst (toggle (PomodoroTimer a b c)) = True \<and>
         fst (toggle (snd (toggle (PomodoroTimer a b c)))) = False \<and>
         length (intervals t) \<le> 1 \<and>
         (isRunning t \<longrightarrow> length (intervals t) = 1 \<and> start t = t) \<and>
         (\<not> isRunning t \<longrightarrow> intervals t = [] \<and> pause t = t) \<and>
         length (intervals (start (start t))) = 1 \<and>
         (3 < timeLeft t \<longrightarrow> timeLeft (seconds 3 (start (start t))) = timeLeft t - 3) \<and>
         timeLeft (seconds 3 (start (start (PomodoroTimer a b c)))) =
           timeLeft (PomodoroTimer a b c) - 3"
proof -
  have c: "consistent t"
    using assms by (simp add: reachable_consistent)
  have i: "intervals t = (case interval t of None \<Rightarrow> [] | Some h \<Rightarrow> [h])"
    and r: "isRunning t \<longleftrightarrow> interval t \<noteq> None"
    using c by (simp_all add: consistent_def)
  have live: "length (intervals t) \<le> 1"
    "isRunning t \<longrightarrow> length (intervals t) = 1"
    "\<not> isRunning t \<longrightarrow> intervals t = []"
    using i r by (auto split: option.splits)
  have ss: "start (start u) = start u" for u
    by (simp add: start_running)
  have cs: "consistent (start t)"
    using c by (rule consistent_start)
  then have one: "length (intervals (start t)) = 1"
    by (auto simp: consistent_def split: option.splits)
  have three: "timeLeft (seconds 3 (start u)) = timeLeft u - 3"
    if "consistent u" and "3 < timeLeft u" for u
  proof -
    have "consistent (start u)" "isRunning (start u)" "int 3 < timeLeft (start u)"
      using that by (simp_all add: consistent_start)
    then have "timeLeft (seconds 3 (start u)) = timeLeft (start u) - int 3"
      by (simp only: countdown)
    then show ?thesis by simp
  qed
  have new3: "timeLeft (seconds 3 (start (PomodoroTimer a b c))) = timeLeft (PomodoroTimer a b c) - 3"
    by (rule three) (simp_all add: consistent_new)
  show ?thesis
    using live one three [OF c] new3 pause_paused [OF c]
    by (simp add: ss start_running)
qed

theorem single_countdown_witness:
  "isRunning (run (PomodoroTimer True True True) [Toggle, Start, Tick]) \<and>
   intervals (run (PomodoroTimer True True True) [Toggle, Start, Tick]) = [0] \<and>
   timeLeft (run (PomodoroTimer True True True) [Toggle, Start, Tick]) = 1499 \<and>
   timeLeft (seconds 3 (start (start (run (PomodoroTimer True True True) [Toggle, Start, Tick]))))
     = 1496 \<and>
   \<not> isRunning (run (PomodoroTimer True True True) [Start, Pause]) \<and>
   pause (run (PomodoroTimer True True True) [Start, Pause]) =
     run (PomodoroTimer True True True) [Start, Pause]"
  using single_countdown [OF refl, of True True True "[Toggle, Start, Tick]"]
    single_countdown [OF refl, of True True True "[Start, Pause]"]
  by (simp add: second_def fire_def)

text \<open>
  Claim C7. \<open>reset\<close> in any reachable state stops the countdown (the timer is not running
  and no interval is live), sets \<open>timeLeft\<close> to the duration of the current mode, and
  invokes \<open>onTick\<close> once with that value and the current mode, and no other callback. The
  mode, the session counter, the durations and every other field are unchanged.
\<close>

theorem reset_effect:
  assumes "t = run (PomodoroTimer a b c) ops"
  shows "reset t =
           t\<lparr>isRunning := False, interval := None, intervals := [],
             timeLeft := durations t (mode t),
             calls := calls t @ (if a then [TickCall (durations t (mode t)) (mode t)] else [])\<rparr> \<and>
         isRunning (reset t) = False \<and>
         intervals (reset t) = [] \<and>
         timeLeft (reset t) = durations t (mode t) \<and>
         calls (reset t) = calls t @ (if a then [TickCall (durations t (mode t)) (mode t)] else []) \<and>
         mode (reset t) = mode t \<and>
         focusSessions (reset t) = focusSessions t \<and>
         durations (reset t) = durations t"
proof -
  have c: "consistent t"
    using assms by (simp add: reachable_consistent)
  have a: "onTick t = a"
    using assms by simp
  have "intervals (pause t) = []"
    using c by (rule consistent_paused)
  then show ?thesis
    using a by (simp add: reset_def pause_def clearInterval_def emit_def Let_def split: option.splits)
qed

theorem reset_effect_witness:
  "isRunning (reset (run (PomodoroTimer True True True) [SetMode Short, Start, Tick, Tick])) = False \<and>
   intervals (reset (run (PomodoroTimer True True True) [SetMode Short, Start, Tick, Tick])) = [] \<and>
   timeLeft (reset (run (PomodoroTimer True True True) [SetMode Short, Start, Tick, Tick])) = 300 \<and>
   mode (reset (run (PomodoroTimer True True True) [SetMode Short, Start, Tick, Tick])) = Short \<and>
   calls (reset (run (PomodoroTimer True True True) [SetMode Short, Start, Tick, Tick])) =
     [ModeChangeCall Short, TickCall 300 Short, TickCall 299 Short, TickCall 298 Short,
      TickCall 300 Short]"
  using reset_effect [OF refl, of True True True "[SetMode Short, Start, Tick, Tick]"]
  by (simp add: PomodoroTimer_def defaultDurations_def second_def fire_def tick_calls)

text \<open>
  Claim C8.\<open>setDuration\<close> for a mode other than the active one changes that mode's stored
  duration and nothing else: the countdown, the mode, the running flag, the session counter,
  the live intervals, the other durations and the callback history are as before. For the
  active mode it is a \<open>reset\<close> of the timer with the new duration stored: the countdown
  stops, \<open>timeLeft\<close> is the new clamped duration, and \<open>onTick\<close> is invoked once.
\<close>

theorem setDuration_frame:
  "(mode t \<noteq> m \<longrightarrow>
      setDuration m k t = t\<lparr>durations := (durations t)(m := max 1 (min 99 k) * 60)\<rparr> \<and>
      timeLeft (setDuration m k t) = timeLeft t \<and>
      mode (setDuration m k t) = mode t \<and>
      isRunning (setDuration m k t) = isRunning t \<and>
      focusSessions (setDuration m k t) = focusSessions t \<and>
      intervals (setDuration m k t) = intervals t \<and>
      calls (setDuration m k t) = calls t \<and>
      (\<forall>m'. m' \<noteq> m \<longrightarrow> durations (setDuration m k t) m' = durations t m')) \<and>
   (mode t = m \<longrightarrow>
      setDuration m k t = reset (t\<lparr>durations := (durations t)(m := max 1 (min 99 k) * 60)\<rparr>) \<and>
      isRunning (setDuration m k t) = False \<and>
      interval (setDuration m k t) = None \<and>
      intervals (setDuration m k t) = intervals (pause t) \<and>
      timeLeft (setDuration m k t) = max 1 (min 99 k) * 60 \<and>
      calls (setDuration m k t) =
        calls t @ (if onTick t then [TickCall (max 1 (min 99 k) * 60) m] else []) \<and>
      (\<forall>m'. m' \<noteq> m \<longrightarrow> durations (setDuration m k t) m' = durations t m'))"
  by (simp add: setDuration_def split: option.split)

theorem setDuration_frame_witness:
  "timeLeft (setDuration Short 10 (start (PomodoroTimer True True True))) = 1500 \<and>
   isRunning (setDuration Short 10 (start (PomodoroTimer True True True))) \<and>
   durations (setDuration Short 10 (start (PomodoroTimer True True True))) Short = 600 \<and>
   durations (setDuration Short 10 (start (PomodoroTimer True True True))) Long = 900 \<and>
   calls (setDuration Short 10 (start (PomodoroTimer True True True))) = [] \<and>
   \<not> isRunning (setDuration Focus 10 (start (PomodoroTimer True True True))) \<and>
   intervals (setDuration Focus 10 (start (PomodoroTimer True True True))) = [] \<and>
   timeLeft (setDuration Focus 10 (start (PomodoroTimer True True True))) = 600 \<and>
   calls (setDuration Focus 10 (start (PomodoroTimer True True True))) = [TickCall 600 Focus]"
  using setDuration_frame [of "start (PomodoroTimer True True True)" Short 10]
    setDuration_frame [of "start (PomodoroTimer True True True)" Focus 10]
  by (simp add: PomodoroTimer_def defaultDurations_def)

section \<open>The formatting helper\<close>

text \<open>
  Beyond the safe integers the quotient by 60 is rounded before \<open>Math.floor\<close> sees it, and
  from \<open>10 ^ 21\<close> on \<open>String\<close> prints an exponent: \<open>6e22\<close> is a double, its quotient
  by 60 is exactly \<open>1e21\<close>, and the minutes field is \<open>1e+21\<close>.
\<close>

lemma bits_1e21: "bits 1000000000000000000000 = 70"
  by (simp add: bits.simps)

lemma bits_2e21: "bits 2000000000000000000000 = 71"
  by (simp add: bits.simps)

lemma nearest_6e22: "nearest 60000000000000000000000 60 = (7629394531250000, - 17)"
  by (simp add: nearest_def exponent_def bits_1e21 Let_def)

lemma floor_6e22: "Math_floor (nearest 60000000000000000000000 60) = 1000000000000000000000"
  by (simp add: nearest_6e22 Math_floor_def)

lemma Number_1e21: "Number 1000000000000000000000 = 1000000000000000000000"
  by (simp add: Number_def nearest_def exponent_def bits_1e21 Math_floor_def Let_def)

lemma Number_2e21: "Number 2000000000000000000000 = 2000000000000000000000"
  by (simp add: Number_def nearest_def exponent_def bits_2e21 Math_floor_def Let_def)

lemma length_1e21: "length (decimal 1000000000000000000000) = 22"
  by (simp add: decimal.simps)

lemma power_1e21: "(10::nat) ^ (22 - 1) = 1000000000000000000000"
  by simp

lemma closer_1e21: "closer 1000000000000000000000 1000000000000000000000 (Suc 0) (Suc (Suc 0)) = Suc 0"
  by (simp add: closer_def Number_1e21 Number_2e21)

lemma shortest_1e21: "shortest 1000000000000000000000 22 1 = (1, 22)"
  by (subst shortest.simps) (simp add: power_1e21 Number_1e21 closer_1e21 Let_def)

lemma toString_1e21: "Number_toString 1000000000000000000000 = ''1e+21''"
  by (simp only: Number_toString_def length_1e21 shortest_1e21) (simp add: decimal.simps digit_def)

lemma format_exponent_notation: "format 60000000000000000000000 = ''1e+21:00''"
proof -
  have "String 1000000000000000000000 = ''1e+21''"
    by (simp add: String_def toString_1e21)
  moreover have "String (60000000000000000000000 smod 60) = ''0''"
    by (simp add: String_def Number_toString_def signed_modulo_int_def decimal.simps digit_def)
  ultimately show ?thesis
    by (simp add: format_def floor_6e22 padStart_def)
qed

text \<open>
  Claim C9, as stated for every non-negative integer, fails: 72057594036328016 is a
  non-negative integer and a double, \<open>floor(s / 60)\<close> is 1200959900605466 and
  \<open>s mod 60\<close> is 56, but the quotient 1200959900605466.93... lies between the
  neighbouring doubles ...466.75 and ...467 and is rounded to the latter, so \<open>format\<close>
  returns the minutes 1200959900605467.
\<close>

theorem format_large_counterexample:
  "(0::int) \<le> 72057594036328016 \<and>
   format 72057594036328016 = ''1200959900605467:56'' \<and>
   formatSpec 72057594036328016 = ''1200959900605466:56'' \<and>
   format 72057594036328016 \<noteq> formatSpec 72057594036328016"
proof -
  have b: "bits 1200959900605466 = 51"
    by (simp add: bits.simps)
  have n: "nearest 72057594036328016 60 = (4803839602421868, 2)"
    by (simp add: nearest_def exponent_def b Let_def)
  have f: "format 72057594036328016 = ''1200959900605467:56''"
    by (simp add: format_def n Math_floor_def String_def Number_toString_def padStart_def
        signed_modulo_int_def decimal.simps digit_def Let_def)
  have g: "formatSpec 72057594036328016 = ''1200959900605466:56''"
    by (simp add: formatSpec_def zeroPadded2_def decimal.simps digit_def)
  show ?thesis
    by (simp add: f g)
qed

text \<open>
  Claim C9, amended. For every integer number of seconds \<open>s\<close> with \<open>0 \<le> s < 2 ^ 53\<close>
  (the safe integers), \<open>format s\<close> is the string formed of \<open>floor(s / 60)\<close> and
  \<open>s mod 60\<close>, each in decimal and zero-padded on the left to at least two digits, joined
  by a colon. Both fields consist of decimal digits; the minutes field denotes \<open>s div 60\<close>
  and the seconds field \<open>s mod 60\<close>; the seconds field has two characters, the minutes field
  at least two, and more than two, then without a leading zero, exactly from 100 minutes on:
  the minutes are not clamped to 59. \<open>format 65\<close> is \<open>01:05\<close> and \<open>format 0\<close> is
  \<open>00:00\<close>.
\<close>

theorem format_safe_MM_SS:
  assumes "0 \<le> s" and "s < 2 ^ 53"
  shows "format s = formatSpec s \<and>
         (\<exists>mm ss. format s = mm @ '':'' @ ss \<and>
            (\<forall>c\<in>set mm. isDigit c) \<and> (\<forall>c\<in>set ss. isDigit c) \<and>
            numberOf mm = nat (s div 60) \<and> numberOf ss = nat (s mod 60) \<and>
            length ss = 2 \<and> 2 \<le> length mm \<and>
            (2 < length mm \<longleftrightarrow> 100 * 60 \<le> s) \<and>
            (2 < length mm \<longrightarrow> hd mm \<noteq> CHR ''0'')) \<and>
         format 65 = ''01:05'' \<and> format 0 = ''00:00''"
proof -
  let ?m = "nat (s div 60)" and ?r = "nat (s mod 60)"
  let ?mm = "padStart 2 CHR ''0'' (decimal ?m)" and ?ss = "padStart 2 CHR ''0'' (decimal ?r)"
  have f: "format s = ?mm @ '':'' @ ?ss"
    using assms by (rule format_safe)
  have spec: "format s = formatSpec s"
    by (simp add: f formatSpec_def zeroPadded2_padStart)
  have r: "?r < 100"
    by simp
  have big: "100 \<le> ?m \<longleftrightarrow> 100 * 60 \<le> s"
    using assms(1) by linarith
  have len: "2 < length ?mm \<longleftrightarrow> 100 * 60 \<le> s"
    using padded [of ?m] big by (cases "?m < 100") simp_all
  have general: "\<exists>mm ss. format s = mm @ '':'' @ ss \<and>
            (\<forall>c\<in>set mm. isDigit c) \<and> (\<forall>c\<in>set ss. isDigit c) \<and>
            numberOf mm = nat (s div 60) \<and> numberOf ss = nat (s mod 60) \<and>
            length ss = 2 \<and> 2 \<le> length mm \<and>
            (2 < length mm \<longleftrightarrow> 100 * 60 \<le> s) \<and>
            (2 < length mm \<longrightarrow> hd mm \<noteq> CHR ''0'')"
    using f padded [of ?m] padded [of ?r] r len big
    by (intro exI [of _ ?mm] exI [of _ ?ss]) simp
  have e65: "format 65 = ''01:05''"
    using format_safe [of 65] by (simp add: padStart_def decimal.simps digit_def)
  have e0: "format 0 = ''00:00''"
    using format_safe [of 0] by (simp add: padStart_def decimal.simps digit_def)
  show ?thesis
    using spec general e65 e0 by simp
qed

theorem format_safe_MM_SS_witness:
  "(0::int) \<le> 6125 \<and> (6125::int) < 2 ^ 53 \<and> format 6125 = ''102:05'' \<and>
   formatSpec 6125 = ''102:05''"
  using format_safe_MM_SS [of 6125]
  by (simp add: formatSpec_def zeroPadded2_def decimal.simps digit_def)

section \<open>Mode changes leave the timer paused\<close>

text \<open>
  Claim C10. After \<open>setMode\<close> in any reachable state, and after the automatic advance at
  a natural expiry, the timer is not running and no interval is live, so passing seconds leave
  the state as it is. The next session counts down only after \<open>start\<close> or
  \<open>toggle\<close>: the second after either of them decreases \<open>timeLeft\<close> by 1.
\<close>

theorem mode_change_stops:
  assumes "t = run (PomodoroTimer a b c) ops"
  shows "isRunning (setMode m t) = False \<and>
         interval (setMode m t) = None \<and>
         intervals (setMode m t) = [] \<and>
         seconds n (setMode m t) = setMode m t \<and>
         (isRunning t \<and> timeLeft t = 1 \<longrightarrow>
            mode (second t) \<noteq> mode t \<and>
            isRunning (second t) = False \<and>
            interval (second t) = None \<and>
            intervals (second t) = [] \<and>
            seconds n (second t) = second t \<and>
            timeLeft (second (start (second t))) = timeLeft (second t) - 1 \<and>
            timeLeft (second (snd (toggle (second t)))) = timeLeft (second t) - 1)"
proof -
  have c: "consistent t"
    using assms by (simp add: reachable_consistent)
  have p: "intervals (pause t) = []"
    using c by (rule consistent_paused)
  have m: "intervals (setMode m t) = []"
    using p by simp
  have idle: "seconds n (setMode m t) = setMode m t"
    using m by (rule seconds_idle)
  have expiry: "mode (second t) \<noteq> mode t \<and>
            isRunning (second t) = False \<and>
            interval (second t) = None \<and>
            intervals (second t) = [] \<and>
            seconds n (second t) = second t \<and>
            timeLeft (second (start (second t))) = timeLeft (second t) - 1 \<and>
            timeLeft (second (snd (toggle (second t)))) = timeLeft (second t) - 1"
    if r: "isRunning t" and l: "timeLeft t = 1"
  proof -
    let ?u = "second t"
    have u: "?u = tick t"
      using c r by (simp add: second_eq)
    have cu: "consistent ?u"
      using c by (rule consistent_second)
    have iu: "intervals ?u = []"
      using u l p by simp
    have ru: "\<not> isRunning ?u"
      using u l by simp
    have "consistent (start ?u)"
      using cu by (rule consistent_start)
    then have s: "second (start ?u) = tick (start ?u)"
      by (simp add: second_eq)
    have "60 \<le> durations ?u (mode ?u)" "1 \<le> timeLeft ?u" "timeLeft ?u = durations ?u (mode ?u)"
      using cu u l by (simp_all add: consistent_def)
    then have big: "\<not> timeLeft ?u \<le> 1"
      by simp
    have d: "timeLeft (second (start ?u)) = timeLeft ?u - 1"
      using big by (simp add: s)
    have md: "mode ?u \<noteq> mode t"
      using u l by (simp add: nextMode_def)
    show ?thesis
      using md ru iu d u l by (simp add: seconds_idle)
  qed
  show ?thesis
    using m idle expiry by simp
qed

theorem mode_change_stops_witness:
  "isRunning (run (PomodoroTimer True True True) (lastSecond Focus)) \<and>
   timeLeft (run (PomodoroTimer True True True) (lastSecond Focus)) = 1 \<and>
   mode (second (run (PomodoroTimer True True True) (lastSecond Focus))) = Short \<and>
   \<not> isRunning (second (run (PomodoroTimer True True True) (lastSecond Focus))) \<and>
   intervals (second (run (PomodoroTimer True True True) (lastSecond Focus))) = [] \<and>
   timeLeft (second (run (PomodoroTimer True True True) (lastSecond Focus))) = 300 \<and>
   timeLeft (seconds 5 (second (run (PomodoroTimer True True True) (lastSecond Focus)))) = 300 \<and>
   timeLeft (second (start (second (run (PomodoroTimer True True True) (lastSecond Focus))))) = 299 \<and>
   \<not> isRunning (setMode Long (run (PomodoroTimer True True True) (lastSecond Focus)))"
proof -
  let ?t = "run (PomodoroTimer True True True) (lastSecond Focus)"
  have h: "isRunning ?t" "mode ?t = Focus" "timeLeft ?t = 1" "focusSessions ?t = 0"
    and d: "durations ?t = defaultDurations(Focus := 60)"
    using lastSecond_state [of True True True Focus] by simp_all
  have "consistent ?t"
    by (rule reachable_consistent)
  then have s: "second ?t = tick ?t"
    using h by (simp add: second_eq)
  have "timeLeft (second ?t) = 300 \<and> mode (second ?t) = Short"
    using h d by (simp add: s nextMode_def signed_modulo_int_def defaultDurations_def)
  then show ?thesis
    using mode_change_stops [where a = True and b = True and c = True and ops = "lastSecond Focus"
        and n = 5 and m = Long, OF refl] h
    by simp
qed

end
